theory Spec2Isabelle
  imports Complex_Main "HOL-Library.Word" "HOL-Library.Sublist" "HOL-Library.AList"
begin

section \<open>Data model (types.ts)\<close>

text \<open>
  A JavaScript string is a sequence of UTF-16 code units. The texts of a transaction,
  which come from the uploaded statement and are searched by the user, are modelled as
  such (\<open>ustring\<close>); \<open>utf16\<close> gives the code units of a text written with
  characters up to U+00FF. The fixed messages, identifiers and prompts of the other
  components are modelled as HOL strings, whose characters are read as the code units
  U+0000 to U+00FF. JavaScript numbers are modelled as rationals: rounding, infinities
  and NaN of IEEE doubles are outside the model.
\<close>

type_synonym code_unit = "16 word"

type_synonym ustring = "code_unit list"

definition utf16 :: "string \<Rightarrow> ustring" where
  "utf16 s = map of_char s"

datatype txn_type = INCOME | EXPENSE

record Transaction =
  date :: ustring
  description :: ustring
  amount :: rat
  ttype :: txn_type
  category :: ustring

datatype AppState = IDLE | ANALYZING | DASHBOARD | ERROR

datatype tab = dashboard_tab | chat_tab

text \<open>
  \<open>JSON.parse(text) as ParsedStatement\<close> is an unchecked cast: at run time the stored
  dataset is whatever JSON value the response body denotes. \<open>JNull\<close> is JavaScript's
  \<open>null\<close>, also the initial value of the \<open>data\<close> state.
\<close>

datatype json =
    JNull
  | JBool bool
  | JNum rat
  | JStr string
  | JArr "json list"
  | JObj "(string \<times> json) list"

text \<open>Values that the code throws and catches.\<close>

datatype js_error =
    Error string          \<comment> \<open>\<open>new Error(message)\<close>\<close>
  | TypeError             \<comment> \<open>property read on \<open>null\<close> or \<open>undefined\<close>\<close>
  | SyntaxError           \<comment> \<open>thrown by \<open>JSON.parse\<close>\<close>
  | ServiceError string   \<comment> \<open>whatever the remote service call rejects with\<close>

datatype log_entry = Log string js_error | LogErr js_error

text \<open>
  The handle returned by \<open>ai.chats.create\<close>. Its system instruction is a fixed
  persona text with two interpolations, both taken from the dataset; the handle is
  modelled by the model name and the dataset it was bound to.
\<close>

record Chat =
  chat_model :: string
  bound_to :: json

text \<open>
  The state of the \<open>App\<close> component (\<open>appState\<close>, \<open>data\<close>, \<open>activeTab\<close>), the
  module-level variable \<open>chatSession\<close> of the service module, and the console.
\<close>

record app =
  appState :: AppState
  data :: json
  activeTab :: tab
  chatSession :: "Chat option"
  console :: "log_entry list"

definition initial_app :: app where
  "initial_app =
     \<lparr>appState = IDLE, data = JNull, activeTab = dashboard_tab,
      chatSession = None, console = []\<rparr>"

definition console_error :: "log_entry \<Rightarrow> app \<Rightarrow> app" where
  "console_error e st = st\<lparr>console := console st @ [e]\<rparr>"

section \<open>Service module: extraction and conversation\<close>

text \<open>\<open>!text\<close> for \<open>text: string | undefined\<close>: true for \<open>undefined\<close> and for the empty string.\<close>

fun falsy :: "string option \<Rightarrow> bool" where
  "falsy None = True"
| "falsy (Some s) = (s = [])"

text \<open>
  \<open>extractFinancialData\<close>. The awaited \<open>ai.models.generateContent\<close> either rejects
  (\<open>Inl\<close>) or yields a response whose \<open>text\<close> may be undefined. \<open>JSON.parse\<close> is
  the platform's parser, a parameter here: \<open>None\<close> is its SyntaxError.
  The \<open>catch\<close> block logs and rethrows.
\<close>

definition extractFinancialData ::
  "(string \<Rightarrow> json option) \<Rightarrow> (js_error + string option) \<Rightarrow> string \<Rightarrow> string \<Rightarrow> app
     \<Rightarrow> (js_error + json) \<times> app" where
  "extractFinancialData JSON_parse response fileBase64 mimeType st =
     (let attempt =
        (case response of
           Inl e \<Rightarrow> Inl e
         | Inr txt \<Rightarrow>
             if falsy txt then Inl (Error ''No response from AI'')
             else (case JSON_parse (the txt) of
                     None \<Rightarrow> Inl SyntaxError
                   | Some v \<Rightarrow> Inr v))
      in case attempt of
           Inl e \<Rightarrow> (Inl e, console_error (Log ''Extraction error:'' e) st)
         | Inr v \<Rightarrow> (Inr v, st))"

text \<open>
  A property read \<open>v.k\<close> on a value that came out of \<open>JSON.parse\<close>: a TypeError on
  \<open>null\<close>, the member of an object, \<open>undefined\<close> (\<open>None\<close>) otherwise.
\<close>

fun get_prop :: "json \<Rightarrow> string \<Rightarrow> js_error + json option" where
  "get_prop JNull k = Inl TypeError"
| "get_prop (JObj kvs) k = Inr (map_of kvs k)"
| "get_prop v k = Inr None"

text \<open>
  \<open>initializeChat\<close>: the template literal reads \<open>data.summary.currency\<close> before the
  session is created, so a dataset without a summary throws and leaves \<open>chatSession\<close>
  as it was.
\<close>

definition initializeChat :: "json \<Rightarrow> app \<Rightarrow> js_error + app" where
  "initializeChat d st =
     (case get_prop d ''summary'' of
        Inl e \<Rightarrow> Inl e
      | Inr None \<Rightarrow> Inl TypeError
      | Inr (Some s) \<Rightarrow>
          (case get_prop s ''currency'' of
             Inl e \<Rightarrow> Inl e
           | Inr c \<Rightarrow>
               Inr (st\<lparr>chatSession :=
                          Some \<lparr>chat_model = ''gemini-2.5-flash'', bound_to = d\<rparr>\<rparr>)))"

definition no_session_message :: string where
  "no_session_message = ''Chat session not initialized''"

definition empty_reply_message :: string where
  "empty_reply_message = ''I couldn't generate a response.''"

definition chat_fallback_message :: string where
  "chat_fallback_message = ''Sorry, I encountered an error analyzing that request.''"

text \<open>
  \<open>sendMessageToAssistant\<close>. The awaited \<open>chatSession.sendMessage\<close> either rejects
  (\<open>Inl\<close>) or yields a result whose \<open>text\<close> may be undefined. The function's own
  \<open>throw\<close> is outside the \<open>try\<close>, so it reaches the caller.
\<close>

definition sendMessageToAssistant ::
  "string \<Rightarrow> (js_error + string option) \<Rightarrow> app \<Rightarrow> (js_error + string) \<times> app" where
  "sendMessageToAssistant message outcome st =
     (case chatSession st of
        None \<Rightarrow> (Inl (Error no_session_message), st)
      | Some chat \<Rightarrow>
          (case outcome of
             Inr txt \<Rightarrow> (Inr (if falsy txt then empty_reply_message else the txt), st)
           | Inl e \<Rightarrow> (Inr chat_fallback_message, console_error (Log ''Chat error:'' e) st)))"

section \<open>Application state controller (App component)\<close>

definition handleFileProcess ::
  "(string \<Rightarrow> json option) \<Rightarrow> (js_error + string option) \<Rightarrow> string \<Rightarrow> string \<Rightarrow> app \<Rightarrow> app" where
  "handleFileProcess JSON_parse response base64 mimeType st =
     (let st1 = st\<lparr>appState := ANALYZING\<rparr> in
      case extractFinancialData JSON_parse response base64 mimeType st1 of
        (Inl e, st2) \<Rightarrow> (console_error (LogErr e) st2)\<lparr>appState := ERROR\<rparr>
      | (Inr result, st2) \<Rightarrow>
          (let st3 = st2\<lparr>data := result\<rparr> in
           case initializeChat result st3 of
             Inl e \<Rightarrow> (console_error (LogErr e) st3)\<lparr>appState := ERROR\<rparr>
           | Inr st4 \<Rightarrow> st4\<lparr>appState := DASHBOARD\<rparr>))"

definition resetApp :: "app \<Rightarrow> app" where
  "resetApp st = st\<lparr>appState := IDLE, data := JNull, activeTab := dashboard_tab\<rparr>"

text \<open>A well-formed statement and a parser that knows one body, used in concrete runs.\<close>

definition sample_statement :: json where
  "sample_statement =
     JObj [(''summary'', JObj [(''currency'', JStr ''USD''),
                               (''totalIncome'', JNum 0), (''totalExpenses'', JNum 0)]),
           (''transactions'', JArr []),
           (''insights'', JArr [])]"

definition sample_parse :: "string \<Rightarrow> json option" where
  "sample_parse s =
     (if s = ''STATEMENT'' then Some sample_statement
      else if s = ''{}'' then Some (JObj [])
      else None)"

definition loaded_app :: app where
  "loaded_app = handleFileProcess sample_parse (Inr (Some ''STATEMENT'')) ''AAAA'' ''image/png'' initial_app"

section \<open>File ingestor (FileUpload component)\<close>

type_synonym byte = "8 word"

text \<open>A browser \<open>File\<close>: its MIME type and its content; \<open>file.size\<close> is the byte count.\<close>

record File =
  file_type :: string
  file_bytes :: "byte list"

definition file_size :: "File \<Rightarrow> nat" where
  "file_size f = length (file_bytes f)"

text \<open>\<open>s.includes(t)\<close>: \<open>t\<close> occurs in \<open>s\<close> as a contiguous run of code units.\<close>

fun str_includes :: "'a list \<Rightarrow> 'a list \<Rightarrow> bool" where
  "str_includes [] t = (t = [])"
| "str_includes (c # s) t = (prefix t (c # s) \<or> str_includes s t)"

text \<open>
  \<open>FileReader.readAsDataURL\<close> belongs to the browser, not to the repository. It is
  modelled from the File API standard and RFC 4648: the result is
  \<open>data:<type>;base64,<payload>\<close>, the payload being the padded base64 encoding of the
  bytes over the standard alphabet.
\<close>

definition b64_char :: "nat \<Rightarrow> char" where
  "b64_char n =
     (if n < 26 then char_of (n + 65)
      else if n < 52 then char_of (n + 71)
      else if n < 62 then char_of (n - 4)
      else if n = 62 then CHR ''+''
      else CHR ''/'')"

fun base64_encode :: "byte list \<Rightarrow> string" where
  "base64_encode [] = []"
| "base64_encode [a] =
     [b64_char (unat a div 4), b64_char ((unat a mod 4) * 16), CHR ''='', CHR ''='']"
| "base64_encode [a, b] =
     [b64_char (unat a div 4), b64_char ((unat a mod 4) * 16 + unat b div 16),
      b64_char ((unat b mod 16) * 4), CHR ''='']"
| "base64_encode (a # b # c # rest) =
     [b64_char (unat a div 4), b64_char ((unat a mod 4) * 16 + unat b div 16),
      b64_char ((unat b mod 16) * 4 + unat c div 64), b64_char (unat c mod 64)]
     @ base64_encode rest"

definition readAsDataURL :: "File \<Rightarrow> string" where
  "readAsDataURL f = ''data:'' @ file_type f @ '';base64,'' @ base64_encode (file_bytes f)"

text \<open>The receiving side of the transport encoding: a strict decoder of padded base64.\<close>

definition b64_index :: "char \<Rightarrow> nat option" where
  "b64_index c =
     (let n = (of_char c :: nat) in
      if 65 \<le> n \<and> n \<le> 90 then Some (n - 65)
      else if 97 \<le> n \<and> n \<le> 122 then Some (n - 71)
      else if 48 \<le> n \<and> n \<le> 57 then Some (n + 4)
      else if c = CHR ''+'' then Some 62
      else if c = CHR ''/'' then Some 63
      else None)"

fun base64_decode :: "string \<Rightarrow> byte list option" where
  "base64_decode [] = Some []"
| "base64_decode (w # x # y # z # rest) =
     (if rest = [] \<and> y = CHR ''='' \<and> z = CHR ''='' then
        (case (b64_index w, b64_index x) of
           (Some a, Some b) \<Rightarrow> Some [of_nat (a * 4 + b div 16)]
         | _ \<Rightarrow> None)
      else if rest = [] \<and> z = CHR ''='' then
        (case (b64_index w, b64_index x, b64_index y) of
           (Some a, Some b, Some c) \<Rightarrow>
             Some [of_nat (a * 4 + b div 16), of_nat ((b mod 16) * 16 + c div 4)]
         | _ \<Rightarrow> None)
      else
        (case (b64_index w, b64_index x, b64_index y, b64_index z) of
           (Some a, Some b, Some c, Some d) \<Rightarrow>
             (case base64_decode rest of
                Some bs \<Rightarrow>
                  Some (of_nat (a * 4 + b div 16) # of_nat ((b mod 16) * 16 + c div 4)
                        # of_nat ((c mod 4) * 64 + d) # bs)
              | None \<Rightarrow> None)
         | _ \<Rightarrow> None))"
| "base64_decode _ = None"

text \<open>\<open>s.split(',')\<close> and the read \<open>parts[i]\<close>, which is \<open>undefined\<close> past the end.\<close>

fun split_on :: "char \<Rightarrow> string \<Rightarrow> string list" where
  "split_on sep [] = [[]]"
| "split_on sep (c # s) =
     (if c = sep then [] # split_on sep s
      else (case split_on sep s of
              [] \<Rightarrow> [[c]]
            | p # ps \<Rightarrow> (c # p) # ps))"

definition at_index :: "'a list \<Rightarrow> nat \<Rightarrow> 'a option" where
  "at_index xs i = (if i < length xs then Some (xs ! i) else None)"

record upload_ui =
  upload_error :: "string option"

definition type_rule_message :: string where
  "type_rule_message = ''Please upload a PDF or an Image file.''"

definition size_rule_message :: string where
  "size_rule_message = ''File size exceeds 10MB.''"

text \<open>
  \<open>handleFileChange\<close>. The second component of the result is the call of
  \<open>onFileSelect(base64, file.type)\<close> made by the reader's \<open>onload\<close>, or \<open>None\<close> when
  the handler returns without starting a read. \<open>onFileSelect\<close> is the only way from
  this component to extraction and to the network. The read itself is taken to succeed.
\<close>

definition handleFileChange ::
  "File option \<Rightarrow> upload_ui \<Rightarrow> upload_ui \<times> (string option \<times> string) option" where
  "handleFileChange file st =
     (case file of
        None \<Rightarrow> (st, None)
      | Some f \<Rightarrow>
          if \<not> str_includes (file_type f) ''pdf'' \<and> \<not> str_includes (file_type f) ''image'' then
            (st\<lparr>upload_error := Some type_rule_message\<rparr>, None)
          else if file_size f > 10 * 1024 * 1024 then
            (st\<lparr>upload_error := Some size_rule_message\<rparr>, None)
          else
            (st\<lparr>upload_error := None\<rparr>,
             Some (at_index (split_on (CHR '','') (readAsDataURL f)) 1, file_type f)))"

text \<open>
  The type rule in the specification's words: the MIME type is that of a PDF document,
  or its top-level type is \<open>image\<close>.
\<close>

definition spec_pdf_or_image :: "string \<Rightarrow> bool" where
  "spec_pdf_or_image t \<longleftrightarrow> t = ''application/pdf'' \<or> prefix ''image/'' t"

text \<open>A small disk image, as the file picker hands it over when all files are shown.\<close>

definition disk_image :: File where
  "disk_image = \<lparr>file_type = ''application/x-apple-diskimage'', file_bytes = [1, 2, 3]\<rparr>"

section \<open>Speech (ChatInterface component and service module)\<close>

text \<open>\<open>text.replace(/[*#_`]/g, '')\<close>\<close>

definition markdown_chars :: "char list" where
  "markdown_chars = [CHR ''*'', CHR ''#'', CHR ''_'', CHR 0x60]"

definition cleanText :: "string \<Rightarrow> string" where
  "cleanText txt = filter (\<lambda>c. c \<notin> set markdown_chars) txt"

text \<open>The request that \<open>speakText\<close> hands to \<open>ai.models.generateContent\<close>.\<close>

record tts_request =
  tts_model :: string
  tts_text :: string
  tts_voice :: string

definition speakText_request :: "string \<Rightarrow> tts_request" where
  "speakText_request txt =
     \<lparr>tts_model = ''gemini-2.5-flash-preview-tts'', tts_text = txt, tts_voice = ''Kore''\<rparr>"

text \<open>What \<open>speakText\<close> makes of the awaited response: the audio payload, or an error.\<close>

definition speakText_result :: "(js_error + string option) \<Rightarrow> js_error + string" where
  "speakText_result response =
     (case response of
        Inl e \<Rightarrow> Inl e
      | Inr audioData \<Rightarrow>
          if falsy audioData then Inl (Error ''No audio data received from Gemini TTS'')
          else Inr (the audioData))"

record audio_ui =
  activeAudioId :: "string option"
  isLoadingAudio :: "string option"
  sourceNode :: bool

definition stopAudio :: "audio_ui \<Rightarrow> audio_ui" where
  "stopAudio st = st\<lparr>sourceNode := False, activeAudioId := None, isLoadingAudio := None\<rparr>"

text \<open>
  \<open>handleSpeak\<close> up to its \<open>await\<close>: the new playback state and the request that is
  transmitted, if any. Pressing the button of the message that is playing only stops it.
\<close>

definition handleSpeak :: "string \<Rightarrow> string \<Rightarrow> audio_ui \<Rightarrow> audio_ui \<times> tts_request option" where
  "handleSpeak msgId txt st =
     (if activeAudioId st = Some msgId then (stopAudio st, None)
      else
        (let st1 = (if \<not> falsy (activeAudioId st) then stopAudio st else st);
             st2 = st1\<lparr>isLoadingAudio := Some msgId\<rparr>
         in (st2, Some (speakText_request (cleanText txt)))))"

section \<open>Chat turns (ChatInterface component)\<close>

datatype role = user | model

text \<open>
  A \<open>ChatMessage\<close>. The id is the decimal rendering of a number (\<open>'1'\<close> for the
  greeting, \<open>Date.now().toString()\<close> afterwards) and is kept as that number; the
  timestamp is the clock reading. The greeting's text is abbreviated to its first word.
\<close>

record ChatMessage =
  msg_id :: nat
  role :: role
  msg_text :: string
  timestamp :: nat

record chat_ui =
  messages :: "ChatMessage list"
  input :: string
  isTyping :: bool

definition greeting :: ChatMessage where
  "greeting = \<lparr>msg_id = 1, role = model, msg_text = ''Namaste!'', timestamp = 0\<rparr>"

definition initial_chat_ui :: chat_ui where
  "initial_chat_ui = \<lparr>messages = [greeting], input = [], isTyping = False\<rparr>"

text \<open>
  \<open>String.prototype.trim\<close> removes white space and line terminators at both ends;
  among the code units up to U+00FF these are tab, line feed, vertical tab, form feed,
  carriage return, space and the no-break space.
\<close>

definition is_ws :: "char \<Rightarrow> bool" where
  "is_ws c = ((of_char c :: nat) \<in> {9, 10, 11, 12, 13, 32, 160})"

definition trim :: "string \<Rightarrow> string" where
  "trim s = rev (dropWhile is_ws (rev (dropWhile is_ws s)))"

definition connection_trouble_message :: string where
  "connection_trouble_message = ''I'm having trouble connecting right now. Please try again.''"

text \<open>
  \<open>handleSend\<close> is an async function with one \<open>await\<close>. \<open>handleSend_begin\<close> is
  the part before it: the new state, and the text handed to
  \<open>sendMessageToAssistant\<close> if a request is made. \<open>handleSend_resume\<close> is the part
  after it, run when that call has returned (\<open>Inr\<close>) or thrown (\<open>Inl\<close>).
  The function is a closure of the render that created it: \<open>input\<close> and \<open>isTyping\<close>
  in its guard are the values of that render (\<open>rendered\<close>), while the setters act on
  the current state of the component (\<open>st\<close>).
\<close>

definition handleSend_begin ::
  "string option \<Rightarrow> nat \<Rightarrow> chat_ui \<Rightarrow> chat_ui \<Rightarrow> chat_ui \<times> string option" where
  "handleSend_begin textOverride now rendered st =
     (let textToSend = (if falsy textOverride then input rendered else the textOverride) in
      if trim textToSend = [] \<or> isTyping rendered then (st, None)
      else
        (let userMsg = \<lparr>msg_id = now, role = user, msg_text = textToSend, timestamp = now\<rparr>
         in (st\<lparr>messages := messages st @ [userMsg], input := [], isTyping := True\<rparr>,
             Some (msg_text userMsg))))"

definition handleSend_resume :: "(js_error + string) \<Rightarrow> nat \<Rightarrow> chat_ui \<Rightarrow> chat_ui" where
  "handleSend_resume result now st =
     (let reply =
        (case result of
           Inr responseText \<Rightarrow>
             \<lparr>msg_id = now + 1, role = model, msg_text = responseText, timestamp = now\<rparr>
         | Inl e \<Rightarrow>
             \<lparr>msg_id = now + 1, role = model, msg_text = connection_trouble_message,
              timestamp = now\<rparr>)
      in st\<lparr>messages := messages st @ [reply], isTyping := False\<rparr>)"

text \<open>
  The chat tab of the running application: the state of the mounted \<open>ChatInterface\<close>,
  that state as of its latest render, the number of the mounting, and the requests
  handed to \<open>sendMessageToAssistant\<close> that still await their reply, each with the
  mounting that issued it. The requests live in the service module and outlive the
  component.
\<close>

record chat_sys =
  ui :: chat_ui
  last_render :: chat_ui
  mounting :: nat
  in_flight :: "(nat \<times> string) list"

definition sys_start :: chat_sys where
  "sys_start =
     \<lparr>ui = initial_chat_ui, last_render = initial_chat_ui, mounting = 0, in_flight = []\<rparr>"

text \<open>React renders the component again with its current state.\<close>

definition sys_render :: "chat_sys \<Rightarrow> chat_sys" where
  "sys_render s = s\<lparr>last_render := ui s\<rparr>"

text \<open>The user types or dictates: \<open>setInput\<close>.\<close>

definition sys_edit :: "string \<Rightarrow> chat_sys \<Rightarrow> chat_sys" where
  "sys_edit typed s = s\<lparr>ui := (ui s)\<lparr>input := typed\<rparr>\<rparr>"

text \<open>
  The send handler of the latest render is invoked (by the button, the Enter key or a
  suggestion).
\<close>

definition sys_send :: "string option \<Rightarrow> nat \<Rightarrow> chat_sys \<Rightarrow> chat_sys" where
  "sys_send textOverride now s =
     (case handleSend_begin textOverride now (last_render s) (ui s) of
        (u, req) \<Rightarrow>
          s\<lparr>ui := u,
            in_flight := in_flight s
              @ (case req of None \<Rightarrow> [] | Some r \<Rightarrow> [(mounting s, r)])\<rparr>)"

text \<open>
  The pending request at position \<open>k\<close> completes and the handler that awaits it
  resumes. Its setters belong to the mounting that issued the request: on a component
  that has been unmounted since they do nothing.
\<close>

definition sys_reply :: "nat \<Rightarrow> (js_error + string) \<Rightarrow> nat \<Rightarrow> chat_sys \<Rightarrow> chat_sys" where
  "sys_reply k result now s =
     (if k < length (in_flight s) then
        s\<lparr>ui := (if fst (in_flight s ! k) = mounting s
                  then handleSend_resume result now (ui s) else ui s),
          in_flight := take k (in_flight s) @ drop (Suc k) (in_flight s)\<rparr>
      else s)"

text \<open>
  The user switches to the Dashboard tab and back to the Assistant tab: \<open>App\<close> renders
  \<open>ChatInterface\<close> only while \<open>activeTab\<close> is the chat, so the component is unmounted
  and a new one is mounted with the initial state.
\<close>

definition sys_remount :: "chat_sys \<Rightarrow> chat_sys" where
  "sys_remount s =
     s\<lparr>ui := initial_chat_ui, last_render := initial_chat_ui, mounting := Suc (mounting s)\<rparr>"

inductive reachable :: "chat_sys \<Rightarrow> bool" where
  start: "reachable sys_start"
| render: "reachable s \<Longrightarrow> reachable (sys_render s)"
| edit: "reachable s \<Longrightarrow> reachable (sys_edit typed s)"
| send: "reachable s \<Longrightarrow> reachable (sys_send textOverride now s)"
| reply: "reachable s \<Longrightarrow> reachable (sys_reply k result now s)"
| remount: "reachable s \<Longrightarrow> reachable (sys_remount s)"

text \<open>
  The runs of a single mounting in which the component has been rendered again before
  the next event is handled.
\<close>

inductive mounted_run :: "chat_sys \<Rightarrow> bool" where
  start: "mounted_run sys_start"
| edit: "mounted_run s \<Longrightarrow> mounted_run (sys_render (sys_edit typed s))"
| send: "mounted_run s \<Longrightarrow> mounted_run (sys_render (sys_send textOverride now s))"
| reply: "mounted_run s \<Longrightarrow> mounted_run (sys_render (sys_reply k result now s))"

text \<open>
  The roles of a transcript after the greeting: user and assistant turns alternate,
  with one unanswered user turn at the end exactly when a request is pending.
\<close>

fun turns_alternate :: "role list \<Rightarrow> bool \<Rightarrow> bool" where
  "turns_alternate [] pending = (\<not> pending)"
| "turns_alternate [user] pending = pending"
| "turns_alternate (user # model # rest) pending = turns_alternate rest pending"
| "turns_alternate _ pending = False"

text \<open>
  The invariant of such a run: the render is up to date, at most one request is
  pending, the typing flag is set exactly while one is, and the transcript is the
  greeting followed by alternating turns.
\<close>

definition chat_inv :: "chat_sys \<Rightarrow> bool" where
  "chat_inv s \<longleftrightarrow>
     last_render s = ui s
     \<and> length (in_flight s) \<le> 1
     \<and> (isTyping (ui s) \<longleftrightarrow> in_flight s \<noteq> [])
     \<and> (\<forall>e\<in>set (in_flight s). fst e = mounting s)
     \<and> messages (ui s) \<noteq> []
     \<and> role (hd (messages (ui s))) = model
     \<and> turns_alternate (map role (tl (messages (ui s)))) (in_flight s \<noteq> [])"

text \<open>
  Three runs: a message is sent and its reply is pending; then the user visits the
  Dashboard tab, comes back and sends again; and the handler of one render is invoked
  twice before the component is rendered again.
\<close>

definition pending_run :: chat_sys where
  "pending_run = sys_render (sys_send (Some ''hi'') 5 sys_start)"

definition overlapping_run :: chat_sys where
  "overlapping_run = sys_send (Some ''again'') 6 (sys_remount pending_run)"

definition stale_run :: chat_sys where
  "stale_run = sys_send (Some ''again'') 6 (sys_send (Some ''hi'') 5 sys_start)"

section \<open>Dashboard computations (Dashboard component)\<close>

text \<open>
  \<open>categories\<close> is a plain object literal used as a dictionary. Its own properties
  are kept in insertion order. A read \<open>categories[k]\<close> of a key that is not an own
  property falls through to \<open>Object.prototype\<close>, whose members are functions
  (\<open>__proto__\<close> is an accessor that yields the prototype object), all of them truthy.
\<close>

definition object_prototype_keys :: "ustring list" where
  "object_prototype_keys =
     map utf16
       [''constructor'', ''hasOwnProperty'', ''isPrototypeOf'', ''propertyIsEnumerable'',
        ''toLocaleString'', ''toString'', ''valueOf'', ''__proto__'',
        ''__defineGetter__'', ''__defineSetter__'', ''__lookupGetter__'', ''__lookupSetter__'']"

text \<open>
  A stored value: a number, or the string that \<open>+\<close> produces once its left operand is
  not a number (the text of the operand followed by the digits of the amount; its
  content is not modelled).
\<close>

datatype cell = Num rat | Str

datatype lookup = Undefined | Own cell | Inherited

definition read_prop :: "(ustring \<times> cell) list \<Rightarrow> ustring \<Rightarrow> lookup" where
  "read_prop obj k =
     (case map_of obj k of
        Some v \<Rightarrow> Own v
      | None \<Rightarrow> if k \<in> set object_prototype_keys then Inherited else Undefined)"

text \<open>\<open>(categories[k] || 0) + amount\<close>\<close>

fun or_zero_plus :: "lookup \<Rightarrow> rat \<Rightarrow> cell" where
  "or_zero_plus Undefined a = Num (0 + a)"
| "or_zero_plus (Own (Num v)) a = (if v = 0 then Num (0 + a) else Num (v + a))"
| "or_zero_plus (Own Str) a = Str"
| "or_zero_plus Inherited a = Str"

text \<open>
  \<open>categories[k] = v\<close>: an own property keeps its position, a new one goes to the
  end. The key \<open>__proto__\<close> is the prototype setter, which ignores a value that is
  neither an object nor \<open>null\<close> and creates no property.
\<close>

definition write_prop ::
  "ustring \<Rightarrow> cell \<Rightarrow> (ustring \<times> cell) list \<Rightarrow> (ustring \<times> cell) list" where
  "write_prop k v obj = (if k = utf16 ''__proto__'' then obj else AList.update k v obj)"

text \<open>
  \<open>Object.entries\<close> lists the keys that are array indices first, in ascending numeric
  order, then the other keys in insertion order. An array index is the canonical
  decimal form of a number below \<open>2^32 - 1\<close>.
\<close>

definition is_digit :: "code_unit \<Rightarrow> bool" where
  "is_digit c = (48 \<le> unat c \<and> unat c \<le> 57)"

definition index_value :: "ustring \<Rightarrow> nat" where
  "index_value s = foldl (\<lambda>n c. 10 * n + (unat c - 48)) 0 s"

definition is_array_index :: "ustring \<Rightarrow> bool" where
  "is_array_index s =
     (s \<noteq> [] \<and> list_all is_digit s \<and> (s = utf16 ''0'' \<or> hd s \<noteq> of_char (CHR ''0''))
      \<and> index_value s < 4294967295)"

definition object_entries :: "(ustring \<times> cell) list \<Rightarrow> (ustring \<times> cell) list" where
  "object_entries obj =
     sort_key (\<lambda>e. index_value (fst e)) (filter (\<lambda>e. is_array_index (fst e)) obj)
     @ filter (\<lambda>e. \<not> is_array_index (fst e)) obj"

text \<open>
  \<open>.sort((a, b) => b.value - a.value)\<close>: a stable sort. The comparator's result is
  NaN when a value is not a number, and the sort reads NaN as zero. With such a value
  among three or more entries the comparator is not an ordering and the engine may
  place the entries in any order; the model then gives the order of a stable insertion.
\<close>

fun comes_first :: "cell \<Rightarrow> cell \<Rightarrow> bool" where
  "comes_first (Num a) (Num b) = (b - a \<le> 0)"
| "comes_first _ _ = True"

fun insert_entry :: "ustring \<times> cell \<Rightarrow> (ustring \<times> cell) list \<Rightarrow> (ustring \<times> cell) list" where
  "insert_entry x [] = [x]"
| "insert_entry x (y # ys) =
     (if comes_first (snd x) (snd y) then x # y # ys else y # insert_entry x ys)"

definition sort_by_value :: "(ustring \<times> cell) list \<Rightarrow> (ustring \<times> cell) list" where
  "sort_by_value xs = foldr insert_entry xs []"

definition add_expense :: "(ustring \<times> cell) list \<Rightarrow> Transaction \<Rightarrow> (ustring \<times> cell) list" where
  "add_expense categories t =
     write_prop (category t) (or_zero_plus (read_prop categories (category t)) (amount t))
       categories"

definition categoryData :: "Transaction list \<Rightarrow> (ustring \<times> cell) list" where
  "categoryData transactions =
     (let expenses = filter (\<lambda>t. ttype t = EXPENSE) transactions;
          categories = foldl add_expense [] expenses
      in take 6 (sort_by_value (object_entries categories)))"

text \<open>
  The search filter. \<open>String.prototype.toLowerCase\<close> belongs to the platform and is a
  parameter here: it maps a whole string to a string, following the case mappings of
  the Unicode Character Database, among them the context-sensitive ones of
  SpecialCasing.txt.
\<close>

definition filteredTransactions ::
  "(ustring \<Rightarrow> ustring) \<Rightarrow> Transaction list \<Rightarrow> ustring \<Rightarrow> Transaction list" where
  "filteredTransactions toLowerCase transactions searchTerm =
     filter (\<lambda>t. str_includes (toLowerCase (description t)) (toLowerCase searchTerm)
                \<or> str_includes (toLowerCase (category t)) (toLowerCase searchTerm))
       transactions"

text \<open>
  The search filter in the specification's words: a transaction is kept when its
  description or its category contains the term as a substring, letters compared
  without regard to case. \<open>fold_case\<close> sends a code unit to the representative of its
  case variants.
\<close>

definition spec_contains_ci :: "(code_unit \<Rightarrow> code_unit) \<Rightarrow> ustring \<Rightarrow> ustring \<Rightarrow> bool" where
  "spec_contains_ci fold_case s needle =
     (\<exists>before mid after.
        s = before @ mid @ after \<and> list_all2 (\<lambda>a b. fold_case a = fold_case b) mid needle)"

definition spec_search ::
  "(code_unit \<Rightarrow> code_unit) \<Rightarrow> Transaction list \<Rightarrow> ustring \<Rightarrow> Transaction list" where
  "spec_search fold_case transactions needle =
     filter (\<lambda>t. spec_contains_ci fold_case (description t) needle
                \<or> spec_contains_ci fold_case (category t) needle)
       transactions"

text \<open>
  Transactions for concrete searches. The third is a purchase at a Greek supermarket,
  its description written in capitals: U+039C U+0391 U+03A3 U+039F U+03A5 U+03A4 U+0397
  U+03A3 (mu, alpha, sigma, omicron, upsilon, tau, eta, sigma). \<open>greek_term\<close> is the
  search term made of its first three letters.
\<close>

definition coffee_txn :: Transaction where
  "coffee_txn = \<lparr>date = utf16 ''2024-01-05'', description = utf16 ''Starbucks Coffee'',
                  amount = 5, ttype = EXPENSE, category = utf16 ''Food''\<rparr>"

definition amazon_txn :: Transaction where
  "amazon_txn = \<lparr>date = utf16 ''2024-01-06'', description = utf16 ''Amazon Purchase'',
                  amount = 20, ttype = EXPENSE, category = utf16 ''Shopping''\<rparr>"

definition greek_txn :: Transaction where
  "greek_txn = \<lparr>date = utf16 ''2024-01-07'',
                 description = [924, 913, 931, 927, 933, 932, 919, 931],
                 amount = 42, ttype = EXPENSE, category = utf16 ''Food''\<rparr>"

definition greek_term :: ustring where
  "greek_term = [924, 913, 931]"

text \<open>
  The lower-case forms of the strings of these searches, as a function: capital sigma
  becomes U+03C2 at the end of a word and U+03C3 elsewhere.
\<close>

definition sample_toLowerCase :: "ustring \<Rightarrow> ustring" where
  "sample_toLowerCase s =
     (if s = [924, 913, 931] then [956, 945, 962]
      else if s = [924, 913, 931, 927, 933, 932, 919, 931]
        then [956, 945, 963, 959, 965, 964, 951, 962]
      else if s = utf16 ''Food'' then utf16 ''food''
      else if s = utf16 ''Shopping'' then utf16 ''shopping''
      else if s = utf16 ''Starbucks Coffee'' then utf16 ''starbucks coffee''
      else if s = utf16 ''Amazon Purchase'' then utf16 ''amazon purchase''
      else if s = utf16 ''CoFFee'' then utf16 ''coffee''
      else s)"

text \<open>
  The numbers the claim speaks of: the sum of the amounts of the EXPENSE transactions
  of a category, and the number held by a stored value.
\<close>

definition category_total :: "Transaction list \<Rightarrow> ustring \<Rightarrow> rat" where
  "category_total transactions c =
     sum_list (map amount (filter (\<lambda>t. ttype t = EXPENSE \<and> category t = c) transactions))"

fun holds_number :: "cell \<Rightarrow> bool" where
  "holds_number (Num v) = True"
| "holds_number Str = False"

fun num_of :: "cell \<Rightarrow> rat" where
  "num_of (Num v) = v"
| "num_of Str = 0"

definition stored :: "(ustring \<times> cell) list \<Rightarrow> ustring \<Rightarrow> rat" where
  "stored obj c = (case map_of obj c of None \<Rightarrow> 0 | Some v \<Rightarrow> num_of v)"

definition expense :: "rat \<Rightarrow> string \<Rightarrow> Transaction" where
  "expense a c = \<lparr>date = utf16 ''2024-01-05'', description = utf16 ''Purchase'', amount = a,
                  ttype = EXPENSE, category = utf16 c\<rparr>"

definition descending :: "ustring \<times> cell \<Rightarrow> ustring \<times> cell \<Rightarrow> bool" where
  "descending a b \<longleftrightarrow> num_of (snd b) \<le> num_of (snd a)"

section \<open>Properties of the controller and the conversation session\<close>

lemma loaded_app_state:
  "appState loaded_app = DASHBOARD"
  "data loaded_app = sample_statement"
  "chatSession loaded_app = Some \<lparr>chat_model = ''gemini-2.5-flash'', bound_to = sample_statement\<rparr>"
  by (simp_all add: loaded_app_def handleFileProcess_def extractFinancialData_def
      initializeChat_def sample_parse_def sample_statement_def initial_app_def Let_def
      console_error_def)

lemma resetApp_fields:
  "appState (resetApp st) = IDLE"
  "data (resetApp st) = JNull"
  "activeTab (resetApp st) = dashboard_tab"
  "chatSession (resetApp st) = chatSession st"
  "console (resetApp st) = console st"
  by (simp_all add: resetApp_def)

lemma send_not_initialized_iff:
  "fst (sendMessageToAssistant message outcome st) = Inl (Error no_session_message)
     \<longleftrightarrow> chatSession st = None"
  by (simp add: sendMessageToAssistant_def split: option.splits sum.splits)

text \<open>
  C1 as stated: after a reset from the Dashboard state no conversation session is
  active, so that a send without a new initialize fails with the session-not-initialized
  error. The code does not do this: \<open>resetApp\<close> updates the component state only, and
  the module-level \<open>chatSession\<close> keeps the session of the previous dataset, so the
  send is answered. The run below uploads a statement, resets, and sends.
\<close>

theorem reset_then_send_is_answered:
  "appState loaded_app = DASHBOARD
   \<and> appState (resetApp loaded_app) = IDLE
   \<and> data (resetApp loaded_app) = JNull
   \<and> chatSession (resetApp loaded_app) \<noteq> None
   \<and> fst (sendMessageToAssistant ''hello'' (Inr (Some ''reply'')) (resetApp loaded_app))
       = Inr ''reply''"
  by (simp add: loaded_app_state resetApp_fields sendMessageToAssistant_def)

text \<open>
  C1, amended: a reset yields the state Idle with the dataset cleared and the dashboard
  tab selected, and leaves the conversation session as it was. A send after the reset
  fails with the session-not-initialized error exactly when no session had been
  initialized before the reset; otherwise the session of the previous dataset answers.
\<close>

theorem resetApp_clears_view_keeps_session:
  "appState (resetApp st) = IDLE
   \<and> data (resetApp st) = JNull
   \<and> activeTab (resetApp st) = dashboard_tab
   \<and> chatSession (resetApp st) = chatSession st
   \<and> (fst (sendMessageToAssistant message outcome (resetApp st)) = Inl (Error no_session_message)
        \<longleftrightarrow> chatSession st = None)"
  by (simp add: resetApp_fields send_not_initialized_iff)

theorem resetApp_clears_view_keeps_session_witness:
  "appState (resetApp initial_app) = IDLE
   \<and> data (resetApp initial_app) = JNull
   \<and> fst (sendMessageToAssistant ''hello'' (Inr (Some ''reply'')) (resetApp initial_app))
       = Inl (Error no_session_message)
   \<and> fst (sendMessageToAssistant ''hello'' (Inr (Some ''reply'')) (resetApp loaded_app))
       \<noteq> Inl (Error no_session_message)"
  using resetApp_clears_view_keeps_session [of initial_app "''hello''" "Inr (Some ''reply'')"]
    resetApp_clears_view_keeps_session [of loaded_app "''hello''" "Inr (Some ''reply'')"]
  by (simp add: initial_app_def loaded_app_state)

lemma extract_fails_on_bad_body:
  assumes "falsy body \<or> JSON_parse (the body) = None"
  shows "extractFinancialData JSON_parse (Inr body) b64 mime st =
           (Inl (if falsy body then Error ''No response from AI'' else SyntaxError),
            console_error
              (Log ''Extraction error:''
                 (if falsy body then Error ''No response from AI'' else SyntaxError)) st)"
  using assms by (auto simp: extractFinancialData_def)

text \<open>
  C2: when the response body is empty (absent or the empty string) or malformed (the
  JSON parser rejects it), extraction fails with an error that reaches the caller, never
  with a dataset; and the controller then ends in the Error state with the stored
  dataset unchanged, so it stays \<open>null\<close> when it was \<open>null\<close> (as it is whenever an
  upload can start), and no conversation session is created.
\<close>

theorem bad_body_propagates_and_leaves_no_dataset:
  assumes "falsy body \<or> JSON_parse (the body) = None"
  shows "(\<exists>e. fst (extractFinancialData JSON_parse (Inr body) b64 mime st) = Inl e)
         \<and> appState (handleFileProcess JSON_parse (Inr body) b64 mime st) = ERROR
         \<and> data (handleFileProcess JSON_parse (Inr body) b64 mime st) = data st
         \<and> chatSession (handleFileProcess JSON_parse (Inr body) b64 mime st) = chatSession st
         \<and> (data st = JNull \<longrightarrow> data (handleFileProcess JSON_parse (Inr body) b64 mime st) = JNull)"
  using assms
  by (simp add: handleFileProcess_def console_error_def
      extract_fails_on_bad_body [where body = body and JSON_parse = JSON_parse])

theorem bad_body_propagates_and_leaves_no_dataset_witness:
  "fst (extractFinancialData sample_parse (Inr (Some ''{\"summary\":'')) ''AAAA'' ''image/png'' initial_app)
     = Inl SyntaxError
   \<and> fst (extractFinancialData sample_parse (Inr (Some [])) ''AAAA'' ''image/png'' initial_app)
     = Inl (Error ''No response from AI'')
   \<and> appState (handleFileProcess sample_parse (Inr (Some ''{\"summary\":'')) ''AAAA'' ''image/png'' initial_app) = ERROR
   \<and> data (handleFileProcess sample_parse (Inr (Some ''{\"summary\":'')) ''AAAA'' ''image/png'' initial_app) = JNull
   \<and> appState (handleFileProcess sample_parse (Inr None) ''AAAA'' ''image/png'' initial_app) = ERROR
   \<and> data (handleFileProcess sample_parse (Inr None) ''AAAA'' ''image/png'' initial_app) = JNull"
proof -
  have malformed: "falsy (Some ''{\"summary\":'') \<or> sample_parse (the (Some ''{\"summary\":'')) = None"
    by (simp add: sample_parse_def)
  have empty: "falsy None \<or> sample_parse (the None) = None"
    by simp
  have null: "data initial_app = JNull"
    by (simp add: initial_app_def)
  show ?thesis
    using malformed empty null
      bad_body_propagates_and_leaves_no_dataset [where body = "Some ''{\"summary\":''"
        and JSON_parse = sample_parse and ?b64.0 = "''AAAA''" and mime = "''image/png''"
        and st = initial_app]
      bad_body_propagates_and_leaves_no_dataset [where body = None
        and JSON_parse = sample_parse and ?b64.0 = "''AAAA''" and mime = "''image/png''"
        and st = initial_app]
    by (simp add: extractFinancialData_def sample_parse_def)
qed

text \<open>
  For comparison, a body that parses but does not have the contracted shape is not an
  extraction failure: the value is stored, the session set-up then throws, and the
  controller ends in the Error state with that value still stored.
\<close>

lemma nonconformant_body_is_stored:
  "appState (handleFileProcess sample_parse (Inr (Some ''{}'')) ''AAAA'' ''image/png'' initial_app) = ERROR"
  "data (handleFileProcess sample_parse (Inr (Some ''{}'')) ''AAAA'' ''image/png'' initial_app) = JObj []"
  by (simp_all add: handleFileProcess_def extractFinancialData_def initializeChat_def
      sample_parse_def initial_app_def console_error_def Let_def)

text \<open>
  C6: on an initialized session, a send whose service call fails does not throw: it
  returns the fixed fallback reply, the cause is appended to the console log, and the
  session is left in place, so that every later send again returns a reply rather than
  an error.
\<close>

theorem send_failure_is_absorbed:
  assumes "chatSession st = Some chat"
  shows "fst (sendMessageToAssistant message (Inl cause) st)
           = Inr ''Sorry, I encountered an error analyzing that request.''
         \<and> console (snd (sendMessageToAssistant message (Inl cause) st))
           = console st @ [Log ''Chat error:'' cause]
         \<and> chatSession (snd (sendMessageToAssistant message (Inl cause) st)) = Some chat
         \<and> (\<exists>r. fst (sendMessageToAssistant message' outcome'
                       (snd (sendMessageToAssistant message (Inl cause) st))) = Inr r)"
  using assms
  by (simp add: sendMessageToAssistant_def chat_fallback_message_def console_error_def
      split: sum.splits)

theorem send_failure_is_absorbed_witness:
  "fst (sendMessageToAssistant ''hello'' (Inl (ServiceError ''503'')) loaded_app)
     = Inr ''Sorry, I encountered an error analyzing that request.''
   \<and> console (snd (sendMessageToAssistant ''hello'' (Inl (ServiceError ''503'')) loaded_app))
     = [Log ''Chat error:'' (ServiceError ''503'')]
   \<and> fst (sendMessageToAssistant ''again'' (Inr (Some ''fine''))
            (snd (sendMessageToAssistant ''hello'' (Inl (ServiceError ''503'')) loaded_app)))
     = Inr ''fine''"
proof -
  have logged: "console loaded_app = []"
    by (simp add: loaded_app_def handleFileProcess_def extractFinancialData_def
        initializeChat_def sample_parse_def sample_statement_def initial_app_def Let_def)
  show ?thesis
    using send_failure_is_absorbed [OF loaded_app_state(3), of "''hello''" "ServiceError ''503''"
        "''again''" "Inr (Some ''fine'')"] logged
    by (simp add: sendMessageToAssistant_def)
qed

text \<open>
  C9: on an initialized session, when the service call succeeds with an absent or empty
  reply text, send returns the fixed string "I couldn't generate a response." and
  neither the empty string nor an error; the state is untouched.
\<close>

theorem empty_reply_gets_fixed_string:
  assumes "chatSession st = Some chat" and "falsy txt"
  shows "sendMessageToAssistant message (Inr txt) st = (Inr ''I couldn't generate a response.'', st)"
  using assms by (simp add: sendMessageToAssistant_def empty_reply_message_def)

theorem empty_reply_gets_fixed_string_witness:
  "sendMessageToAssistant ''hello'' (Inr None) loaded_app
     = (Inr ''I couldn't generate a response.'', loaded_app)
   \<and> sendMessageToAssistant ''hello'' (Inr (Some [])) loaded_app
     = (Inr ''I couldn't generate a response.'', loaded_app)"
  using empty_reply_gets_fixed_string [OF loaded_app_state(3), of None "''hello''"]
    empty_reply_gets_fixed_string [OF loaded_app_state(3), of "Some []" "''hello''"]
  by simp

section \<open>Properties of the file ingestor\<close>

lemma str_includes_iff_sublist: "str_includes s t \<longleftrightarrow> sublist t s"
  by (induction s) (simp_all add: sublist_Cons_right)

text \<open>
  The two guards of the handler. A file whose type contains neither "pdf" nor "image"
  is refused with the message of the type rule; a file of more than 10 * 1024 * 1024
  bytes is refused whatever its type (with the message of the type rule when that
  guard fires too, of the size rule otherwise); in both cases the handler stops there:
  no read is started and \<open>onFileSelect\<close> is not called.
\<close>

lemma type_and_size_guards:
  "(\<not> str_includes (file_type f) ''pdf'' \<and> \<not> str_includes (file_type f) ''image''
      \<longrightarrow> handleFileChange (Some f) st
            = (st\<lparr>upload_error := Some ''Please upload a PDF or an Image file.''\<rparr>, None))
   \<and> (10 * 1024 * 1024 < file_size f
      \<longrightarrow> handleFileChange (Some f) st
            = (st\<lparr>upload_error :=
                    Some (if \<not> str_includes (file_type f) ''pdf''
                             \<and> \<not> str_includes (file_type f) ''image''
                          then ''Please upload a PDF or an Image file.''
                          else ''File size exceeds 10MB.'')\<rparr>, None))"
  by (simp add: handleFileChange_def type_rule_message_def size_rule_message_def)

lemma type_and_size_guards_examples:
  "handleFileChange (Some \<lparr>file_type = ''text/plain'', file_bytes = [1, 2, 3]\<rparr>) \<lparr>upload_error = None\<rparr>
     = (\<lparr>upload_error = Some ''Please upload a PDF or an Image file.''\<rparr>, None)"
  "handleFileChange (Some \<lparr>file_type = ''image/png'', file_bytes = replicate 10485761 0\<rparr>)
        \<lparr>upload_error = None\<rparr>
     = (\<lparr>upload_error = Some ''File size exceeds 10MB.''\<rparr>, None)"
  "handleFileChange (Some \<lparr>file_type = ''text/plain'', file_bytes = replicate 10485761 0\<rparr>)
        \<lparr>upload_error = None\<rparr>
     = (\<lparr>upload_error = Some ''Please upload a PDF or an Image file.''\<rparr>, None)"
  by (simp_all add: handleFileChange_def type_rule_message_def size_rule_message_def
      file_size_def)

text \<open>The type guard refuses no PDF document and no image.\<close>

lemma type_guard_admits_pdf_and_images:
  assumes "spec_pdf_or_image t"
  shows "str_includes t ''pdf'' \<or> str_includes t ''image''"
proof (cases "t = ''application/pdf''")
  case True
  then show ?thesis by simp
next
  case False
  with assms have "prefix ''image/'' t"
    by (simp add: spec_pdf_or_image_def)
  then obtain r where "t = ''image'' @ (CHR ''/'' # r)"
    by (auto simp: prefix_def)
  then have "sublist ''image'' t"
    by (simp add: sublist_append_rightI del: append.simps)
  then show ?thesis
    by (simp add: str_includes_iff_sublist)
qed

lemma of_char_b64_char:
  "n < 64 \<Longrightarrow> (of_char (b64_char n) :: nat) =
     (if n < 26 then n + 65 else if n < 52 then n + 71 else if n < 62 then n - 4
      else if n = 62 then 43 else 47)"
  by (simp add: b64_char_def)

lemma b64_index_code:
  "b64_index c =
     (if 65 \<le> (of_char c :: nat) \<and> (of_char c :: nat) \<le> 90 then Some (of_char c - 65)
      else if 97 \<le> (of_char c :: nat) \<and> (of_char c :: nat) \<le> 122 then Some (of_char c - 71)
      else if 48 \<le> (of_char c :: nat) \<and> (of_char c :: nat) \<le> 57 then Some (of_char c + 4)
      else if (of_char c :: nat) = 43 then Some 62
      else if (of_char c :: nat) = 47 then Some 63
      else None)"
proof -
  have "c = CHR ''+'' \<longleftrightarrow> (of_char c :: nat) = of_char (CHR ''+'')"
    "c = CHR ''/'' \<longleftrightarrow> (of_char c :: nat) = of_char (CHR ''/'')"
    by (simp_all only: of_char_eq_iff)
  then have "c = CHR ''+'' \<longleftrightarrow> (of_char c :: nat) = 43" "c = CHR ''/'' \<longleftrightarrow> (of_char c :: nat) = 47"
    by simp_all
  then show ?thesis
    by (simp add: b64_index_def Let_def)
qed

lemma b64_index_char: "n < 64 \<Longrightarrow> b64_index (b64_char n) = Some n"
  by (auto simp: b64_index_code of_char_b64_char)

lemma b64_char_not_pad: "n < 64 \<Longrightarrow> b64_char n \<noteq> CHR ''=''"
proof
  assume "n < 64" and "b64_char n = CHR ''=''"
  then have "(of_char (b64_char n) :: nat) = 61" by simp
  with \<open>n < 64\<close> show False
    by (simp add: of_char_b64_char split: if_splits)
qed

lemma b64_char_not_comma: "n < 64 \<Longrightarrow> b64_char n \<noteq> CHR '',''"
proof
  assume "n < 64" and "b64_char n = CHR '',''"
  then have "(of_char (b64_char n) :: nat) = 44" by simp
  with \<open>n < 64\<close> show False
    by (simp add: of_char_b64_char split: if_splits)
qed

lemma byte_bound: "unat (a :: byte) < 256"
  using unsigned_less [of a, where ?'a = nat] by simp


lemma sextets:
  fixes a b c :: byte
  shows "unat a div 4 < 64" "(unat a mod 4) * 16 < 64"
    "(unat a mod 4) * 16 + unat b div 16 < 64"
    "(unat b mod 16) * 4 < 64"
    "(unat b mod 16) * 4 + unat c div 64 < 64" "unat c mod 64 < 64"
  using byte_bound [of a] byte_bound [of b] byte_bound [of c] by arith+



lemma small_div: "(y::nat) < 256 \<Longrightarrow> y div 16 < 16" "(z::nat) < 256 \<Longrightarrow> z div 64 < 4"
  by (simp_all add: less_mult_imp_div_less)

lemma regroup1:
  fixes x :: nat
  shows "x div 4 * 4 + (x mod 4 * 16) div 16 = x"
  by simp

lemma regroup2:
  fixes x y :: nat
  assumes "y < 256"
  shows "x div 4 * 4 + (x mod 4 * 16 + y div 16) div 16 = x"
    "(x mod 4 * 16 + y div 16) mod 16 * 16 + (y mod 16 * 4) div 4 = y"
  using small_div(1) [OF assms] by simp_all

lemma regroup3:
  fixes x y z :: nat
  assumes "y < 256" "z < 256"
  shows "(x mod 4 * 16 + y div 16) mod 16 * 16 + (y mod 16 * 4 + z div 64) div 4 = y"
    "(y mod 16 * 4 + z div 64) mod 4 * 64 + z mod 64 = z"
  using small_div(1) [OF assms(1)] small_div(2) [OF assms(2)] by simp_all


lemma byte_of_unat: "(of_nat (unat (a :: byte)) :: byte) = a"
  by simp

lemma decode_pad2:
  assumes "b64_index w = Some p" "b64_index x = Some q"
  shows "base64_decode [w, x, CHR ''='', CHR ''=''] = Some [of_nat (p * 4 + q div 16)]"
  using assms by simp

lemma decode_pad1:
  assumes "y \<noteq> CHR ''=''" "b64_index w = Some p" "b64_index x = Some q" "b64_index y = Some r"
  shows "base64_decode [w, x, y, CHR ''='']
           = Some [of_nat (p * 4 + q div 16), of_nat (q mod 16 * 16 + r div 4)]"
  using assms by simp

lemma decode_full:
  assumes "z \<noteq> CHR ''=''"
    "b64_index w = Some p" "b64_index x = Some q" "b64_index y = Some r" "b64_index z = Some t"
    "base64_decode rest = Some bs"
  shows "base64_decode (w # x # y # z # rest)
           = Some (of_nat (p * 4 + q div 16) # of_nat (q mod 16 * 16 + r div 4)
                   # of_nat (r mod 4 * 64 + t) # bs)"
  using assms by simp

lemma base64_roundtrip: "base64_decode (base64_encode bs) = Some bs"
proof (induction bs rule: base64_encode.induct)
  case 1
  show ?case by simp
next
  case (2 a)
  let ?p = "unat a div 4" and ?q = "unat a mod 4 * 16"
  have "base64_decode (base64_encode [a]) = Some [of_nat (?p * 4 + ?q div 16)]"
    unfolding base64_encode.simps
    by (rule decode_pad2) (rule b64_index_char, rule sextets)+
  also have "?p * 4 + ?q div 16 = unat a"
    by (rule regroup1)
  finally show ?case
    by (simp only: byte_of_unat)
next
  case (3 a b)
  let ?p = "unat a div 4" and ?q = "unat a mod 4 * 16 + unat b div 16"
    and ?r = "unat b mod 16 * 4"
  have "base64_decode (base64_encode [a, b])
          = Some [of_nat (?p * 4 + ?q div 16), of_nat (?q mod 16 * 16 + ?r div 4)]"
    unfolding base64_encode.simps
    by (rule decode_pad1, rule b64_char_not_pad, rule sextets)
       (rule b64_index_char, rule sextets)+
  also have "?p * 4 + ?q div 16 = unat a"
    by (rule regroup2 [OF byte_bound])
  also have "?q mod 16 * 16 + ?r div 4 = unat b"
    by (rule regroup2 [OF byte_bound])
  finally show ?case
    by (simp only: byte_of_unat)
next
  case (4 a b c rest)
  let ?p = "unat a div 4" and ?q = "unat a mod 4 * 16 + unat b div 16"
    and ?r = "unat b mod 16 * 4 + unat c div 64" and ?t = "unat c mod 64"
  have "base64_decode (base64_encode (a # b # c # rest))
          = Some (of_nat (?p * 4 + ?q div 16) # of_nat (?q mod 16 * 16 + ?r div 4)
                  # of_nat (?r mod 4 * 64 + ?t) # rest)"
    unfolding base64_encode.simps append_Cons append_Nil
    by (rule decode_full, rule b64_char_not_pad, rule sextets)
       ((rule b64_index_char, rule sextets)+, rule 4)
  also have "?p * 4 + ?q div 16 = unat a"
    by (rule regroup2 [OF byte_bound])
  also have "?q mod 16 * 16 + ?r div 4 = unat b"
    by (rule regroup3 [OF byte_bound byte_bound])
  also have "?r mod 4 * 64 + ?t = unat c"
    by (rule regroup3 [OF byte_bound byte_bound])
  finally show ?case
    by (simp only: byte_of_unat)
qed

lemma base64_no_comma: "CHR '','' \<notin> set (base64_encode bs)"
proof (induction bs rule: base64_encode.induct)
  case 1
  show ?case by simp
next
  case (2 a)
  show ?case
    using b64_char_not_comma [OF sextets(1), of a] b64_char_not_comma [OF sextets(2), of a]
    by auto
next
  case (3 a b)
  show ?case
    using b64_char_not_comma [OF sextets(1), of a] b64_char_not_comma [OF sextets(3), of a b]
      b64_char_not_comma [OF sextets(4), of b]
    by auto
next
  case (4 a b c rest)
  then show ?case
    using b64_char_not_comma [OF sextets(1), of a] b64_char_not_comma [OF sextets(3), of a b]
      b64_char_not_comma [OF sextets(5), of b c] b64_char_not_comma [OF sextets(6), of c]
    by auto
qed

lemma split_on_none: "sep \<notin> set s \<Longrightarrow> split_on sep s = [s]"
  by (induction s) auto

lemma split_on_first: "sep \<notin> set s \<Longrightarrow> split_on sep (s @ sep # r) = s # split_on sep r"
  by (induction s) auto

lemma split_data_url:
  assumes "CHR '','' \<notin> set (file_type f)"
  shows "split_on (CHR '','') (readAsDataURL f)
           = [''data:'' @ file_type f @ '';base64'', base64_encode (file_bytes f)]"
proof -
  let ?head = "''data:'' @ file_type f @ '';base64''"
  let ?payload = "base64_encode (file_bytes f)"
  have url: "readAsDataURL f = ?head @ CHR '','' # ?payload"
    by (simp add: readAsDataURL_def)
  have head: "CHR '','' \<notin> set ?head"
    using assms by simp
  have "split_on (CHR '','') (readAsDataURL f) = split_on (CHR '','') (?head @ CHR '','' # ?payload)"
    by (simp only: url)
  also have "\<dots> = ?head # split_on (CHR '','') ?payload"
    by (rule split_on_first [OF head])
  also have "split_on (CHR '','') ?payload = [?payload]"
    by (rule split_on_none [OF base64_no_comma])
  finally show ?thesis .
qed

text \<open>
  C3: ingestion is to refuse, before anything else and with the error of the type
  rule, every file whose MIME type indicates neither a PDF document nor an image, and
  to refuse every file of more than 10 MiB whatever its type. The size rule and the
  order of the checks are as claimed (lemma \<open>type_and_size_guards\<close>), and no PDF
  document or image is refused (lemma \<open>type_guard_admits_pdf_and_images\<close>). But the
  type is tested by substring, \<open>file.type.includes('image')\<close>, and a type that merely
  contains the word passes: a small disk image of type
  \<open>application/x-apple-diskimage\<close>, neither a PDF document nor an image, raises no
  error, is read, and is handed to \<open>onFileSelect\<close> for extraction, although the
  component's own message and its \<open>accept\<close> list speak of PDF and image files only.
\<close>

theorem disk_image_passes_validation:
  "\<not> spec_pdf_or_image (file_type disk_image)
   \<and> file_size disk_image \<le> 10 * 1024 * 1024
   \<and> handleFileChange (Some disk_image) \<lparr>upload_error = None\<rparr>
     = (\<lparr>upload_error = None\<rparr>, Some (Some ''AQID'', ''application/x-apple-diskimage''))"
proof -
  have spec: "\<not> spec_pdf_or_image (file_type disk_image)"
    by (simp add: spec_pdf_or_image_def disk_image_def)
  have guard: "str_includes (file_type disk_image) ''image''"
    by (simp add: disk_image_def)
  have small: "file_size disk_image \<le> 10 * 1024 * 1024"
    by (simp add: file_size_def disk_image_def)
  have plain: "CHR '','' \<notin> set (file_type disk_image)"
    by (simp add: disk_image_def)
  have payload: "base64_encode (file_bytes disk_image) = ''AQID''"
    by (simp add: disk_image_def b64_char_def char_of_def bit_Suc_0_iff)
  have type: "file_type disk_image = ''application/x-apple-diskimage''"
    by (simp add: disk_image_def)
  have "handleFileChange (Some disk_image) \<lparr>upload_error = None\<rparr>
      = (\<lparr>upload_error = None\<rparr>, Some (Some ''AQID'', ''application/x-apple-diskimage''))"
    using guard small
    by (simp add: handleFileChange_def split_data_url [OF plain] at_index_def payload type
        del: base64_encode.simps)
  with spec small show ?thesis
    by simp
qed

text \<open>
  C4: for every file whose MIME type is allowed (it contains "pdf" or "image") and
  whose size is at most 10 * 1024 * 1024 bytes, ingestion succeeds: the error is
  cleared and \<open>onFileSelect\<close> receives a base64 payload together with the file's own
  MIME type, and decoding the payload gives back exactly the bytes of the file. A MIME
  type is a token/token pair and as such contains no comma, which the hypothesis
  records.
\<close>

theorem ingestion_round_trip:
  assumes "str_includes (file_type f) ''pdf'' \<or> str_includes (file_type f) ''image''"
    and "file_size f \<le> 10 * 1024 * 1024"
    and "CHR '','' \<notin> set (file_type f)"
  shows "\<exists>payload.
           handleFileChange (Some f) st
             = (st\<lparr>upload_error := None\<rparr>, Some (Some payload, file_type f))
           \<and> base64_decode payload = Some (file_bytes f)"
  using assms
  by (auto simp: handleFileChange_def split_data_url at_index_def base64_roundtrip)

theorem ingestion_round_trip_witness:
  "handleFileChange (Some \<lparr>file_type = ''application/pdf'', file_bytes = [77, 97]\<rparr>)
       \<lparr>upload_error = Some ''earlier''\<rparr>
     = (\<lparr>upload_error = None\<rparr>, Some (Some ''TWE='', ''application/pdf''))
   \<and> base64_decode ''TWE='' = Some [77, 97]"
proof -
  let ?f = "\<lparr>file_type = ''application/pdf'', file_bytes = [77, 97 :: byte]\<rparr>"
  have allowed: "str_includes (file_type ?f) ''pdf'' \<or> str_includes (file_type ?f) ''image''"
    by simp
  have small: "file_size ?f \<le> 10 * 1024 * 1024"
    by (simp add: file_size_def)
  have plain: "CHR '','' \<notin> set (file_type ?f)"
    by simp
  have payload: "base64_encode [77, 97] = ''TWE=''"
    by (simp add: b64_char_def char_of_def bit_Suc_0_iff)
  have run: "handleFileChange (Some ?f) \<lparr>upload_error = Some ''earlier''\<rparr>
               = (\<lparr>upload_error = None\<rparr>, Some (Some ''TWE='', ''application/pdf''))"
    using allowed small plain
    by (simp add: handleFileChange_def split_data_url at_index_def payload
        del: base64_encode.simps)
  from ingestion_round_trip [OF allowed small plain, of "\<lparr>upload_error = Some ''earlier''\<rparr>"] run
  show ?thesis
    by simp
qed

section \<open>Properties of speech\<close>

text \<open>
  C5: the text that the speak operation transmits to the audio-generation endpoint is
  the input with every \<open>*\<close>, \<open>#\<close>, \<open>_\<close> and backtick removed and everything else
  kept in order; whenever a request is made it carries that text, and one is made
  unless the button pressed belongs to the message that is playing. For the input
  "**Hello** `world`" the transmitted text is "Hello world".
\<close>

theorem speak_strips_markdown:
  "set (cleanText txt) \<inter> {CHR ''*'', CHR ''#'', CHR ''_'', CHR 0x60} = {}
   \<and> cleanText txt = filter (\<lambda>c. c \<notin> {CHR ''*'', CHR ''#'', CHR ''_'', CHR 0x60}) txt
   \<and> (\<forall>req. snd (handleSpeak msgId txt st) = Some req \<longrightarrow> tts_text req = cleanText txt)
   \<and> (activeAudioId st \<noteq> Some msgId \<longrightarrow> (\<exists>req. snd (handleSpeak msgId txt st) = Some req))
   \<and> tts_text (speakText_request (cleanText ''**Hello** `world`'')) = ''Hello world''"
  by (auto simp: cleanText_def markdown_chars_def handleSpeak_def speakText_request_def Let_def)

theorem speak_strips_markdown_witness:
  "snd (handleSpeak ''7'' ''**Hello** `world`''
          \<lparr>activeAudioId = None, isLoadingAudio = None, sourceNode = False\<rparr>)
     = Some \<lparr>tts_model = ''gemini-2.5-flash-preview-tts'', tts_text = ''Hello world'',
             tts_voice = ''Kore''\<rparr>"
  using speak_strips_markdown [of "''**Hello** `world`''" "''7''"
      "\<lparr>activeAudioId = None, isLoadingAudio = None, sourceNode = False\<rparr>"]
  by (simp add: handleSpeak_def speakText_request_def cleanText_def markdown_chars_def)

section \<open>Properties of the chat turn handler\<close>

lemma trim_empty_iff: "trim s = [] \<longleftrightarrow> (\<forall>c\<in>set s. is_ws c)"
proof
  assume "trim s = []"
  then have all: "\<forall>c\<in>set (dropWhile is_ws s). is_ws c"
    by (simp add: trim_def dropWhile_eq_Nil_conv)
  have "dropWhile is_ws s = []"
  proof (rule ccontr)
    assume ne: "dropWhile is_ws s \<noteq> []"
    then have "\<not> is_ws (hd (dropWhile is_ws s))"
      by (rule hd_dropWhile)
    moreover from ne have "hd (dropWhile is_ws s) \<in> set (dropWhile is_ws s)"
      by simp
    ultimately show False using all by blast
  qed
  then show "\<forall>c\<in>set s. is_ws c"
    by (simp add: dropWhile_eq_Nil_conv)
next
  assume "\<forall>c\<in>set s. is_ws c"
  then show "trim s = []"
    by (auto simp: trim_def dest: set_dropWhileD)
qed

lemma turns_alternate_user:
  "turns_alternate rs p \<Longrightarrow> \<not> p \<Longrightarrow> turns_alternate (rs @ [user]) True"
  by (induction rs p rule: turns_alternate.induct) auto

lemma turns_alternate_model:
  "turns_alternate rs p \<Longrightarrow> p \<Longrightarrow> turns_alternate (rs @ [model]) False"
  by (induction rs p rule: turns_alternate.induct) auto

text \<open>
  The guard of the handler: when the typing flag of its render is set, or when the
  candidate text (the override if it is given and not empty, the input box of its
  render otherwise) is empty or consists of white space only, the handler makes no
  request and leaves the state, with its transcript, untouched.
\<close>

lemma handleSend_begin_blocked:
  assumes "isTyping rendered
    \<or> (\<forall>c\<in>set (if falsy textOverride then input rendered else the textOverride). is_ws c)"
  shows "handleSend_begin textOverride now rendered st = (st, None)"
  using assms by (auto simp: handleSend_begin_def trim_empty_iff Let_def)

lemma chat_inv_edit:
  assumes "chat_inv s"
  shows "chat_inv (sys_render (sys_edit typed s))"
  using assms by (simp add: chat_inv_def sys_render_def sys_edit_def)

lemma chat_inv_send:
  assumes "chat_inv s"
  shows "chat_inv (sys_render (sys_send textOverride now s))"
proof -
  from assms have fresh: "last_render s = ui s"
    by (simp add: chat_inv_def)
  show ?thesis
  proof (cases "trim (if falsy textOverride then input (ui s) else the textOverride) = []
      \<or> isTyping (ui s)")
    case True
    then have "handleSend_begin textOverride now (ui s) (ui s) = (ui s, None)"
      by (auto simp: handleSend_begin_def Let_def)
    with assms show ?thesis
      by (simp add: chat_inv_def sys_render_def sys_send_def fresh)
  next
    case False
    with assms have idle: "in_flight s = []"
      by (simp add: chat_inv_def)
    define m where "m = \<lparr>msg_id = now, role = user,
      msg_text = (if falsy textOverride then input (ui s) else the textOverride),
      timestamp = now\<rparr>"
    from False have started: "handleSend_begin textOverride now (ui s) (ui s)
        = ((ui s)\<lparr>messages := messages (ui s) @ [m], input := [], isTyping := True\<rparr>,
           Some (msg_text m))"
      by (auto simp: handleSend_begin_def Let_def m_def)
    have m: "role m = user"
      by (simp add: m_def)
    from assms idle have "turns_alternate (map role (tl (messages (ui s)))) False"
      by (simp add: chat_inv_def)
    then have "turns_alternate (map role (tl (messages (ui s))) @ [user]) True"
      by (rule turns_alternate_user) simp
    with assms idle m show ?thesis
      by (simp add: chat_inv_def sys_render_def sys_send_def fresh started)
  qed
qed

lemma chat_inv_reply:
  assumes "chat_inv s"
  shows "chat_inv (sys_render (sys_reply k result now s))"
proof (cases "k < length (in_flight s)")
  case False
  with assms show ?thesis
    by (simp add: chat_inv_def sys_render_def sys_reply_def)
next
  case True
  with assms obtain e where one: "in_flight s = [e]" and k: "k = 0"
    by (cases "in_flight s") (auto simp: chat_inv_def)
  with assms have mine: "fst e = mounting s"
    by (simp add: chat_inv_def)
  from assms one have "turns_alternate (map role (tl (messages (ui s)))) True"
    by (simp add: chat_inv_def)
  then have "turns_alternate (map role (tl (messages (ui s))) @ [model]) False"
    by (rule turns_alternate_model) simp
  with assms one k mine show ?thesis
    by (cases result)
       (simp_all add: chat_inv_def sys_render_def sys_reply_def handleSend_resume_def)
qed

lemma mounted_run_chat_inv: "mounted_run s \<Longrightarrow> chat_inv s"
proof (induction rule: mounted_run.induct)
  case start
  show ?case by (simp add: chat_inv_def sys_start_def initial_chat_ui_def greeting_def)
next
  case (edit s typed)
  then show ?case by (simp add: chat_inv_edit)
next
  case (send s textOverride now)
  then show ?case by (simp add: chat_inv_send)
next
  case (reply s k result now)
  then show ?case by (simp add: chat_inv_reply)
qed

text \<open>
  Within one mounting, and as long as the component is rendered again before the next
  event is handled, the guard does serialize the turns: at most one request is
  pending, the typing flag is set exactly while one is, and the transcript after the
  greeting alternates user and assistant turns.
\<close>

lemma mounted_run_serialized:
  assumes "mounted_run s"
  shows "length (in_flight s) \<le> 1"
    and "isTyping (ui s) \<longleftrightarrow> in_flight s \<noteq> []"
    and "role (hd (messages (ui s))) = model"
    and "turns_alternate (map role (tl (messages (ui s)))) (in_flight s \<noteq> [])"
  using mounted_run_chat_inv [OF assms] by (simp_all add: chat_inv_def)

lemma mounted_run_reachable: "mounted_run s \<Longrightarrow> reachable s"
  by (induction rule: mounted_run.induct) (auto intro: reachable.intros)

lemmas run_eval = pending_run_def overlapping_run_def stale_run_def sys_start_def sys_render_def
  sys_send_def sys_remount_def handleSend_begin_def initial_chat_ui_def greeting_def
  trim_def is_ws_def Let_def

lemma pending_run_state:
  "mounted_run pending_run" "in_flight pending_run = [(0, ''hi'')]" "isTyping (ui pending_run)"
  unfolding pending_run_def
  by (rule mounted_run.send [OF mounted_run.start]) (simp_all add: run_eval)

text \<open>
  The handler of one render, invoked twice before the component is rendered again,
  passes its guard twice: both calls read the typing flag of that render.
\<close>

lemma stale_render_allows_overlapping_requests:
  "reachable stale_run"
  "in_flight stale_run = [(0, ''hi''), (0, ''again'')]"
  "map role (messages (ui stale_run)) = [model, user, user]"
proof -
  show "reachable stale_run"
    unfolding stale_run_def by (intro reachable.intros)
qed (simp_all add: run_eval)

text \<open>
  C10: the chat turn handler is never to issue two overlapping chat requests, so that
  user and assistant turns are strictly serialized. Its guard is as the claim says
  (lemma \<open>handleSend_begin_blocked\<close>) and serializes the turns of one mounting (lemma
  \<open>mounted_run_serialized\<close>). But the typing flag is state of the component, and \<open>App\<close>
  unmounts the component when the user leaves the Assistant tab, while the pending
  request and the chat session stay in the service module. In the run below the user
  sends "hi", visits the Dashboard tab while the reply is pending, comes back and
  sends "again": the new component starts with the flag cleared, the guard passes, and
  two requests to the same session are pending at once. The transcript shown no
  longer holds the first user turn.
\<close>

theorem remount_allows_overlapping_requests:
  "reachable overlapping_run
   \<and> in_flight overlapping_run = [(0, ''hi''), (1, ''again'')]
   \<and> map role (messages (ui overlapping_run)) = [model, user]
   \<and> map msg_text (tl (messages (ui overlapping_run))) = [''again'']"
proof -
  have "reachable overlapping_run"
    unfolding overlapping_run_def pending_run_def
    by (intro reachable.intros)
  then show ?thesis
    by (simp add: run_eval)
qed

section \<open>Properties of the dashboard computations\<close>

lemma list_all2_fold_case:
  "list_all2 (\<lambda>a b. f a = f b) xs ys \<longleftrightarrow> map f xs = map f ys"
  by (induction xs arbitrary: ys) (auto simp: list_all2_Cons1)

lemma includes_map_iff_spec:
  "str_includes (map f s) (map f q) \<longleftrightarrow> spec_contains_ci f s q"
proof
  assume "str_includes (map f s) (map f q)"
  then obtain ps ss where "map f s = ps @ map f q @ ss"
    by (auto simp: str_includes_iff_sublist sublist_def)
  then obtain a b c where "s = a @ b @ c" and "map f b = map f q"
    by (auto simp: map_eq_append_conv append_eq_map_conv)
  then show "spec_contains_ci f s q"
    unfolding spec_contains_ci_def list_all2_fold_case by blast
next
  assume "spec_contains_ci f s q"
  then obtain a b c where "s = a @ b @ c" and "map f b = map f q"
    unfolding spec_contains_ci_def list_all2_fold_case by blast
  then have "map f s = map f a @ map f q @ map f c"
    by simp
  then show "str_includes (map f s) (map f q)"
    unfolding str_includes_iff_sublist sublist_def by blast
qed

text \<open>
  Where lower-casing acts code unit by code unit (as it does on texts of Basic Latin
  and Latin-1 characters), the filter of the code is the filter of the specification.
\<close>

lemma search_agrees_where_lowering_is_unitwise:
  assumes unitwise: "\<And>s. set s \<subseteq> A \<Longrightarrow> toLowerCase s = map f s"
    and needle: "set q \<subseteq> A"
    and texts: "\<forall>t\<in>set transactions. set (description t) \<subseteq> A \<and> set (category t) \<subseteq> A"
  shows "filteredTransactions toLowerCase transactions q = spec_search f transactions q"
  unfolding filteredTransactions_def spec_search_def
proof (rule filter_cong [OF refl])
  fix t
  assume "t \<in> set transactions"
  with texts have "toLowerCase (description t) = map f (description t)"
    "toLowerCase (category t) = map f (category t)"
    by (simp_all add: unitwise)
  moreover have "toLowerCase q = map f q"
    by (rule unitwise [OF needle])
  ultimately show "(str_includes (toLowerCase (description t)) (toLowerCase q)
      \<or> str_includes (toLowerCase (category t)) (toLowerCase q))
    = (spec_contains_ci f (description t) q \<or> spec_contains_ci f (category t) q)"
    by (simp add: includes_map_iff_spec)
qed

text \<open>
  The example of the specification: with the descriptions "Starbucks Coffee" and
  "Amazon Purchase", a term whose lower-case form is "coffee" finds exactly the first
  transaction.
\<close>

lemma coffee_search_example:
  assumes "toLowerCase q = utf16 ''coffee''"
    and "toLowerCase (utf16 ''Starbucks Coffee'') = utf16 ''starbucks coffee''"
    and "toLowerCase (utf16 ''Amazon Purchase'') = utf16 ''amazon purchase''"
    and "toLowerCase (utf16 ''Food'') = utf16 ''food''"
    and "toLowerCase (utf16 ''Shopping'') = utf16 ''shopping''"
  shows "filteredTransactions toLowerCase [coffee_txn, amazon_txn] q = [coffee_txn]"
  using assms
  by (simp add: filteredTransactions_def coffee_txn_def amazon_txn_def) (simp add: utf16_def)

lemma coffee_search_any_case:
  "filteredTransactions sample_toLowerCase [coffee_txn, amazon_txn] (utf16 ''CoFFee'')
     = [coffee_txn]"
proof (rule coffee_search_example)
qed (simp_all add: sample_toLowerCase_def utf16_def)

text \<open>
  C8: for every transaction list and search term the search filter is to return
  exactly the transactions whose description or category contains the term as a
  case-insensitive substring. The code compares the lower-case forms of whole strings,
  which agrees with this where lower-casing acts letter by letter (lemma
  \<open>search_agrees_where_lowering_is_unitwise\<close>) and on the example of the specification
  (lemma \<open>coffee_search_example\<close>). But the lower-case form of a capital sigma depends
  on its place in the word. The hypotheses below are the values that
  \<open>String.prototype.toLowerCase\<close> has by the Unicode case mappings (Final_Sigma in
  SpecialCasing.txt): the term of three capitals ends in a final sigma U+03C2, while
  the same three letters inside the description give U+03C3. So a transaction whose
  description begins with the very term searched for is not returned.
\<close>

theorem final_sigma_term_is_not_found:
  assumes "toLowerCase greek_term = [956, 945, 962]"
    and "toLowerCase (description greek_txn) = [956, 945, 963, 959, 965, 964, 951, 962]"
    and "toLowerCase (category greek_txn) = utf16 ''food''"
  shows "prefix greek_term (description greek_txn)
         \<and> sublist greek_term (description greek_txn)
         \<and> filteredTransactions toLowerCase [greek_txn] greek_term = []"
proof -
  have "prefix greek_term (description greek_txn)"
    by (simp add: greek_term_def greek_txn_def)
  moreover from this have "sublist greek_term (description greek_txn)"
    by (rule prefix_imp_sublist)
  moreover have "filteredTransactions toLowerCase [greek_txn] greek_term = []"
    using assms by (simp add: filteredTransactions_def) (simp add: utf16_def)
  ultimately show ?thesis
    by simp
qed

theorem final_sigma_term_is_not_found_witness:
  "sublist greek_term (description greek_txn)
   \<and> filteredTransactions sample_toLowerCase [greek_txn] greek_term = []"
proof -
  have "sample_toLowerCase greek_term = [956, 945, 962]"
    by (simp add: sample_toLowerCase_def greek_term_def)
  moreover have "sample_toLowerCase (description greek_txn)
      = [956, 945, 963, 959, 965, 964, 951, 962]"
    by (simp add: sample_toLowerCase_def greek_txn_def)
  moreover have "sample_toLowerCase (category greek_txn) = utf16 ''food''"
    by (simp add: sample_toLowerCase_def greek_txn_def) (simp add: utf16_def)
  ultimately show ?thesis
    using final_sigma_term_is_not_found [of sample_toLowerCase] by simp
qed

lemma proto_not_plain: "k \<notin> set object_prototype_keys \<Longrightarrow> k \<noteq> utf16 ''__proto__''"
  by (auto simp: object_prototype_keys_def)

lemma add_expense_plain:
  assumes "category t \<notin> set object_prototype_keys" and "\<forall>e\<in>set obj. holds_number (snd e)"
  shows "add_expense obj t
           = AList.update (category t) (Num (stored obj (category t) + amount t)) obj"
proof (cases "map_of obj (category t)")
  case None
  with assms(1) show ?thesis
    by (simp add: add_expense_def read_prop_def write_prop_def stored_def proto_not_plain)
next
  case (Some v)
  then have "(category t, v) \<in> set obj"
    by (rule map_of_SomeD)
  with assms(2) have "holds_number v"
    by auto
  then obtain r where "v = Num r"
    by (cases v) auto
  with Some assms(1) show ?thesis
    by (simp add: add_expense_def read_prop_def write_prop_def stored_def proto_not_plain)
qed

lemma update_holds_number:
  "\<forall>e\<in>set al. holds_number (snd e) \<Longrightarrow> holds_number v
     \<Longrightarrow> \<forall>e\<in>set (AList.update k v al). holds_number (snd e)"
  by (induction al) auto

lemma stored_lookup:
  assumes "\<forall>e\<in>set obj. holds_number (snd e)" and "map_of obj c = Some v"
  shows "v = Num (stored obj c)"
proof -
  from assms(2) have "(c, v) \<in> set obj"
    by (rule map_of_SomeD)
  with assms(1) have "holds_number v"
    by auto
  with assms(2) show ?thesis
    by (cases v) (simp_all add: stored_def)
qed

lemma add_expense_holds_number:
  assumes "category t \<notin> set object_prototype_keys" and "\<forall>e\<in>set obj. holds_number (snd e)"
  shows "\<forall>e\<in>set (add_expense obj t). holds_number (snd e)"
  unfolding add_expense_plain [OF assms]
  by (rule update_holds_number) (use assms in simp_all)

lemma fold_all_num:
  assumes "\<forall>t\<in>set xs. category t \<notin> set object_prototype_keys"
    and "\<forall>e\<in>set obj. holds_number (snd e)"
  shows "\<forall>e\<in>set (foldl add_expense obj xs). holds_number (snd e)"
  using assms
proof (induction xs arbitrary: obj)
  case Nil
  then show ?case by simp
next
  case (Cons t xs)
  have "\<forall>e\<in>set (add_expense obj t). holds_number (snd e)"
    by (rule add_expense_holds_number) (use Cons.prems in simp_all)
  with Cons show ?case
    by simp
qed

lemma fold_distinct:
  assumes "\<forall>t\<in>set xs. category t \<notin> set object_prototype_keys"
    and "\<forall>e\<in>set obj. holds_number (snd e)"
    and "distinct (map fst obj)"
  shows "distinct (map fst (foldl add_expense obj xs))"
  using assms
proof (induction xs arbitrary: obj)
  case Nil
  then show ?case by simp
next
  case (Cons t xs)
  have "\<forall>e\<in>set (add_expense obj t). holds_number (snd e)"
    by (rule add_expense_holds_number) (use Cons.prems in simp_all)
  moreover have "distinct (map fst (add_expense obj t))"
    using Cons.prems by (simp add: add_expense_plain distinct_update)
  ultimately show ?case
    using Cons by simp
qed

lemma fold_totals:
  assumes "\<forall>t\<in>set xs. category t \<notin> set object_prototype_keys"
    and "\<forall>e\<in>set obj. holds_number (snd e)"
  shows "map_of (foldl add_expense obj xs) c =
           (if map_of obj c = None \<and> c \<notin> category ` set xs then None
            else Some (Num (stored obj c + sum_list (map amount (filter (\<lambda>t. category t = c) xs)))))"
  using assms
proof (induction xs arbitrary: obj)
  case Nil
  then show ?case
    by (cases "map_of obj c") (simp_all add: stored_lookup)
next
  case (Cons t xs)
  let ?obj = "AList.update (category t) (Num (stored obj (category t) + amount t)) obj"
  have step: "add_expense obj t = ?obj"
    using Cons.prems by (simp add: add_expense_plain)
  have nums: "\<forall>e\<in>set ?obj. holds_number (snd e)"
    by (rule update_holds_number) (use Cons.prems in simp_all)
  have plain: "\<forall>t\<in>set xs. category t \<notin> set object_prototype_keys"
    using Cons.prems(1) by simp
  have look: "map_of ?obj c = (if c = category t then Some (Num (stored obj c + amount t)) else map_of obj c)"
    by (simp add: update_conv')
  then have st: "stored ?obj c = (if c = category t then stored obj c + amount t else stored obj c)"
    by (simp add: stored_def)
  show ?case
    using Cons.IH [OF plain nums] look st
    by (auto simp: step)
qed


lemma set_object_entries: "set (object_entries obj) = set obj"
  by (auto simp: object_entries_def)

lemma distinct_object_entries: "distinct obj \<Longrightarrow> distinct (object_entries obj)"
  by (auto simp: object_entries_def)

lemma set_insert_entry: "set (insert_entry x ys) = insert x (set ys)"
  by (induction ys) auto

lemma distinct_insert_entry: "distinct (insert_entry x ys) \<longleftrightarrow> x \<notin> set ys \<and> distinct ys"
  by (induction ys) (auto simp: set_insert_entry)

lemma set_sort_by_value: "set (sort_by_value xs) = set xs"
  by (induction xs) (simp_all add: sort_by_value_def set_insert_entry)

lemma distinct_sort_by_value: "distinct (sort_by_value xs) \<longleftrightarrow> distinct xs"
  using set_sort_by_value [unfolded sort_by_value_def]
  by (induction xs) (simp_all add: sort_by_value_def distinct_insert_entry)

lemma sorted_insert_entry:
  assumes "holds_number (snd x)" and "\<forall>e\<in>set ys. holds_number (snd e)"
    and "sorted_wrt descending ys"
  shows "sorted_wrt descending (insert_entry x ys)"
  using assms
proof (induction ys)
  case Nil
  then show ?case by simp
next
  case (Cons y ys)
  from Cons.prems obtain a b where ab: "snd x = Num a" "snd y = Num b"
    by (cases "snd x"; cases "snd y") auto
  show ?case
  proof (cases "b \<le> a")
    case True
    with ab Cons.prems(3) show ?thesis
      by (auto simp: descending_def)
  next
    case False
    with ab Cons show ?thesis
      by (auto simp: descending_def set_insert_entry)
  qed
qed

lemma sorted_sort_by_value:
  "\<forall>e\<in>set xs. holds_number (snd e) \<Longrightarrow> sorted_wrt descending (sort_by_value xs)"
proof (induction xs)
  case Nil
  show ?case by (simp add: sort_by_value_def)
next
  case (Cons x xs)
  have "sorted_wrt descending (insert_entry x (sort_by_value xs))"
    by (rule sorted_insert_entry) (use Cons in \<open>simp_all add: set_sort_by_value\<close>)
  then show ?case
    by (simp add: sort_by_value_def)
qed

lemma sorted_wrt_take_any: "sorted_wrt R xs \<Longrightarrow> sorted_wrt R (take n xs)"
  using sorted_wrt_append [of R "take n xs" "drop n xs"] by simp

lemma distinct_keys_iff: "distinct (map fst xs) \<longleftrightarrow> distinct xs \<and> inj_on fst (set xs)"
  by (rule distinct_map)

lemma categoryData_plain:
  assumes "\<forall>t\<in>set transactions. ttype t = EXPENSE \<longrightarrow> category t \<notin> set object_prototype_keys"
  shows "sorted_wrt descending (categoryData transactions)"
    and "\<forall>e\<in>set (categoryData transactions). snd e = Num (category_total transactions (fst e))"
    and "distinct (map fst (categoryData transactions))"
    and "length (categoryData transactions) \<le> 6"
proof -
  let ?expenses = "filter (\<lambda>t. ttype t = EXPENSE) transactions"
  let ?obj = "foldl add_expense [] ?expenses"
  have plain: "\<forall>t\<in>set ?expenses. category t \<notin> set object_prototype_keys"
    using assms by simp
  have result: "categoryData transactions = take 6 (sort_by_value (object_entries ?obj))"
    by (simp add: categoryData_def)
  have nums: "\<forall>e\<in>set ?obj. holds_number (snd e)"
    by (rule fold_all_num [OF plain]) simp
  have keys: "distinct (map fst ?obj)"
    by (rule fold_distinct [OF plain]) simp_all
  have part: "set (categoryData transactions) \<subseteq> set ?obj"
    unfolding result using set_take_subset [of 6 "sort_by_value (object_entries ?obj)"]
    by (simp add: set_sort_by_value set_object_entries)
  show "sorted_wrt descending (categoryData transactions)"
    unfolding result
    by (rule sorted_wrt_take_any, rule sorted_sort_by_value)
       (use nums in \<open>simp add: set_object_entries\<close>)
  show "\<forall>e\<in>set (categoryData transactions). snd e = Num (category_total transactions (fst e))"
  proof
    fix e
    assume "e \<in> set (categoryData transactions)"
    with part have "(fst e, snd e) \<in> set ?obj"
      by auto
    with keys have "map_of ?obj (fst e) = Some (snd e)"
      by simp
    then have "snd e = Num (stored [] (fst e)
        + sum_list (map amount (filter (\<lambda>t. category t = fst e) ?expenses)))"
      by (simp add: fold_totals [OF plain] split: if_splits)
    then show "snd e = Num (category_total transactions (fst e))"
      by (simp add: stored_def category_total_def conj_commute)
  qed
  show "distinct (map fst (categoryData transactions))"
  proof -
    from keys have "distinct ?obj" "inj_on fst (set ?obj)"
      by (simp_all add: distinct_keys_iff)
    then have "distinct (categoryData transactions)" "inj_on fst (set (categoryData transactions))"
      using part
      by (auto simp: result distinct_sort_by_value distinct_object_entries intro: inj_on_subset)
    then show ?thesis
      by (simp add: distinct_keys_iff)
  qed
  show "length (categoryData transactions) \<le> 6"
    by (simp add: result)
qed

text \<open>The example of the specification, in either order of the input.\<close>

lemmas category_eval = categoryData_def add_expense_def read_prop_def write_prop_def
  object_prototype_keys_def object_entries_def sort_by_value_def is_array_index_def
  is_digit_def index_value_def expense_def utf16_def

lemma top_categories_example:
  "categoryData [expense 100 ''Food'', expense 50 ''Food'', expense 30 ''Transport'']
     = [(utf16 ''Food'', Num 150), (utf16 ''Transport'', Num 30)]"
  "categoryData [expense 30 ''Transport'', expense 100 ''Food'', expense 50 ''Food'']
     = [(utf16 ''Food'', Num 150), (utf16 ''Transport'', Num 30)]"
  by (simp_all add: category_eval)

text \<open>
  An expense whose category is \<open>__proto__\<close> leaves no entry at all: the assignment
  goes to the prototype setter, which ignores a string.
\<close>

lemma category_named_proto_is_dropped:
  "categoryData [expense 100 ''__proto__''] = []"
  by (simp add: category_eval)

text \<open>
  C7: for every transaction list the top-categories computation is to sum the amounts
  of the EXPENSE transactions per category and to order the categories by descending
  sum. Lemma \<open>categoryData_plain\<close> shows this (for the six categories kept) whenever no
  expense category is the name of a member of \<open>Object.prototype\<close>, and lemma
  \<open>top_categories_example\<close> the example Food = 150, Transport = 30. For a category that
  is such a name the code does not sum: for a single expense of 100 in the category
  "constructor" the read \<open>categories[t.category]\<close> yields the inherited constructor
  function, \<open>+\<close> concatenates, and the entry holds a string where the sum is 100.
\<close>

theorem category_named_constructor_is_not_summed:
  "categoryData [expense 100 ''constructor''] = [(utf16 ''constructor'', Str)]
   \<and> category_total [expense 100 ''constructor''] (utf16 ''constructor'') = 100
   \<and> ttype (expense 100 ''constructor'') = EXPENSE"
  by (simp add: category_eval category_total_def)

end
